theory Spec2Isabelle
  imports Complex_Main "HOL-Library.Word" "HOL-Library.Multiset"
begin

section \<open>MeshBeat: clock synchronisation, chunked transfer, playback scheduling\<close>

text \<open>
  A shallow embedding of \<^verbatim>\<open>src/lib/sync-engine.ts\<close>, \<^verbatim>\<open>src/lib/audio-engine.ts\<close> and
  \<^verbatim>\<open>src/lib/peer-manager.ts\<close>.

  Conventions.
  \<^item> A TypeScript \<^verbatim>\<open>number\<close> that holds a time, a duration or an offset is a \<^typ>\<open>real\<close>:
    the arithmetic of the source is read as exact arithmetic. On the integer millisecond
    readings of \<^verbatim>\<open>Date.now()\<close> (all below \<open>2^53\<close>) the differences, sums and halvings of
    \<^verbatim>\<open>calculateOffset\<close> are exact in IEEE doubles as well. NaN and the infinities are left out.
  \<^item> A \<^verbatim>\<open>number\<close> that counts or indexes (array lengths, chunk indices) is a \<^typ>\<open>nat\<close>.
  \<^item> Readings of the clocks (\<^verbatim>\<open>Date.now()\<close>, \<^verbatim>\<open>performance.now()\<close>, \<^verbatim>\<open>Tone.now()\<close>) are
    inputs of the function or event that takes them.
  \<^item> Mutation is state passing; an exception is the \<open>Inl\<close> of a sum.
\<close>

subsection \<open>sync-engine.ts: samples and the offset computation\<close>

record SyncResult =
  roundTripTime :: real
  clockOffset :: real

text \<open>\<^verbatim>\<open>private maxSamples = 10\<close>; the field is never assigned again.\<close>

definition maxSamples :: nat where
  "maxSamples = 10"

text \<open>\<^verbatim>\<open>calculateOffset(t1, t2, t3, t4)\<close>, lines 112-121.\<close>

definition calculateOffset :: "real \<Rightarrow> real \<Rightarrow> real \<Rightarrow> real \<Rightarrow> SyncResult" where
  "calculateOffset t1 t2 t3 t4 =
     (let rtt = (t4 - t1) - (t3 - t2);
          offset = ((t2 - t1) + (t3 - t4)) / 2;
          sanitizedOffset = (if \<bar>offset\<bar> > 10000 then 0 else offset);
          sanitizedRTT = (if rtt < 0 then \<bar>rtt\<bar> else rtt)
      in \<lparr>roundTripTime = sanitizedRTT, clockOffset = sanitizedOffset\<rparr>)"

text \<open>
  \<^verbatim>\<open>addSample(result)\<close>, lines 126-131, on the buffer \<^verbatim>\<open>this.samples\<close>, here \<open>ring\<close>:
  \<^verbatim>\<open>push\<close> appends, \<^verbatim>\<open>shift\<close> removes the first element.
\<close>

definition addSample :: "SyncResult \<Rightarrow> SyncResult list \<Rightarrow> SyncResult list" where
  "addSample result ring =
     (let pushed = ring @ [result]
      in if length pushed > maxSamples then tl pushed else pushed)"

text \<open>
  \<^verbatim>\<open>slice(start, stop)\<close> of an array or an \<^verbatim>\<open>ArrayBuffer\<close>, for indices that are not
  negative: \<open>stop\<close> is clipped to the length, and an empty range gives the empty array.
\<close>

definition slice_array :: "'a list \<Rightarrow> nat \<Rightarrow> nat \<Rightarrow> 'a list" where
  "slice_array xs start stop = take (min stop (length xs) - start) (drop start xs)"

text \<open>\<^verbatim>\<open>a || b\<close> on counts: \<open>0\<close> is the only falsy count.\<close>

definition or_else :: "nat \<Rightarrow> nat \<Rightarrow> nat" where
  "or_else a b = (if a = 0 then b else a)"

text \<open>
  Lines 144-153 of \<^verbatim>\<open>getAverageResult\<close>, for any \<open>trimCount\<close>: the slice, the fallback to the
  most recent sample, and the two means. \<^verbatim>\<open>reduce\<close> folds from the left, starting at \<open>0\<close>.
\<close>

definition averageTrimmed :: "SyncResult list \<Rightarrow> SyncResult list \<Rightarrow> nat \<Rightarrow> SyncResult" where
  "averageTrimmed ring sortedSamples trimCount =
     (let trimmed = slice_array sortedSamples trimCount
                      (or_else (length sortedSamples - trimCount) (length sortedSamples))
      in if length trimmed = 0 then last ring
         else
           (let avgRTT = foldl (\<lambda>sum s. sum + roundTripTime s) 0 trimmed / real (length trimmed);
                avgOffset = foldl (\<lambda>sum s. sum + clockOffset s) 0 trimmed / real (length trimmed)
            in \<lparr>roundTripTime = avgRTT, clockOffset = avgOffset\<rparr>))"

text \<open>
  \<^verbatim>\<open>getAverageResult()\<close>, lines 136-154. \<^verbatim>\<open>Array.prototype.sort\<close> is stable and the
  comparator \<^verbatim>\<open>a.roundTripTime - b.roundTripTime\<close> is the order of the round trip times, so
  \<open>sortedSamples\<close> (the source's \<^verbatim>\<open>sorted\<close>) is the stable sort by that key,
  \<^const>\<open>sort_key\<close>. \<^verbatim>\<open>Math.floor(n * 0.2)\<close> is \<open>n div 5\<close>: the double \<open>0.2\<close> lies just above
  one fifth, so the product never falls below a whole number it should reach.
\<close>

definition getAverageResult :: "SyncResult list \<Rightarrow> SyncResult" where
  "getAverageResult ring =
     (if length ring = 0 then \<lparr>roundTripTime = 0, clockOffset = 0\<rparr>
      else
        (let sortedSamples = sort_key roundTripTime ring;
             trimCount = length sortedSamples div 5
         in averageTrimmed ring sortedSamples trimCount))"


subsection \<open>sync-engine.ts: probes, response handlers and timers\<close>

text \<open>
  What a \<^verbatim>\<open>'data'\<close> listener of the connection receives: a \<^verbatim>\<open>SYNC_RESPONSE\<close> message
  with its \<open>t1\<close>, \<open>t2\<close>, \<open>t3\<close>, or anything else (which \<^verbatim>\<open>handleResponse\<close> ignores).
\<close>

datatype ChannelData = SyncResponseData real real real | OtherData

text \<open>
  The engine and what it has registered. \<open>samples\<close> and \<open>intervalId\<close> are the fields of
  the class. The rest is the part of its surroundings that the engine writes to:
  \<open>listeners\<close> are the \<^verbatim>\<open>handleResponse\<close> closures now registered on the connection
  (\<^verbatim>\<open>connection.on('data', handleResponse)\<close>), each named by a number; \<open>timeouts\<close> are
  the pending \<^verbatim>\<open>setTimeout\<close> timers, named by the handler they remove; \<open>requests\<close> are
  the \<open>t1\<close> of the requests sent; \<open>completions\<close> are the results passed to
  \<^verbatim>\<open>onSyncComplete\<close>, in order. When a timer is due is not modelled: an event may come
  at any point.
\<close>

record SyncEngine =
  samples :: "SyncResult list"
  intervalId :: "nat option"
  listeners :: "nat list"
  timeouts :: "nat list"
  requests :: "real list"
  completions :: "SyncResult list"
  nextId :: nat

definition newSyncEngine :: SyncEngine where
  "newSyncEngine =
     \<lparr>samples = [], intervalId = None, listeners = [], timeouts = [], requests = [],
      completions = [], nextId = 0\<rparr>"

text \<open>\<^verbatim>\<open>stopSync()\<close>, lines 40-46. A timer id is truthy.\<close>

definition stopSync :: "SyncEngine \<Rightarrow> SyncEngine" where
  "stopSync e =
     (let e1 = (if intervalId e \<noteq> None then e\<lparr>intervalId := None\<rparr> else e)
      in e1\<lparr>samples := []\<rparr>)"

text \<open>
  \<^verbatim>\<open>performSync(connection, onSyncComplete)\<close>, lines 51-89, with \<open>t1\<close> the reading of
  \<^verbatim>\<open>Date.now()\<close>: register the handler, send the request, set the timer of 1000 ms.
\<close>

definition performSync :: "real \<Rightarrow> SyncEngine \<Rightarrow> SyncEngine" where
  "performSync t1 e =
     (let h = nextId e
      in e\<lparr>listeners := listeners e @ [h],
            requests := requests e @ [t1],
            timeouts := timeouts e @ [h],
            nextId := Suc h\<rparr>)"

text \<open>\<^verbatim>\<open>startSync(connection, onSyncComplete)\<close>, lines 22-35.\<close>

definition startSync :: "real \<Rightarrow> SyncEngine \<Rightarrow> SyncEngine" where
  "startSync now e =
     (let e1 = stopSync e;
          e2 = performSync now e1
      in e2\<lparr>intervalId := Some (nextId e2), nextId := Suc (nextId e2)\<rparr>)"

text \<open>
  The closure \<^verbatim>\<open>handleResponse\<close> of handler \<open>h\<close>, lines 65-80, with \<open>t4\<close> its reading of
  \<^verbatim>\<open>Date.now()\<close>. It does not compare the response's \<open>t1\<close> with its own probe.
\<close>

definition handleResponse :: "nat \<Rightarrow> ChannelData \<Rightarrow> real \<Rightarrow> SyncEngine \<Rightarrow> SyncEngine" where
  "handleResponse h d t4 e =
     (case d of
        SyncResponseData t1 t2 t3 \<Rightarrow>
          (let result = calculateOffset t1 t2 t3 t4;
               e1 = e\<lparr>samples := addSample result (samples e)\<rparr>;
               e2 = e1\<lparr>completions := completions e1 @ [getAverageResult (samples e1)]\<rparr>
           in e2\<lparr>listeners := removeAll h (listeners e2)\<rparr>)
      | OtherData \<Rightarrow> e)"

text \<open>
  A \<^verbatim>\<open>'data'\<close> event of the connection: every listener registered when the event is
  emitted is called, in the order of registration (a listener that removes itself does not
  disturb the others). \<open>clock h\<close> is the time handler \<open>h\<close> reads.
\<close>

definition dataArrives :: "ChannelData \<Rightarrow> (nat \<Rightarrow> real) \<Rightarrow> SyncEngine \<Rightarrow> SyncEngine" where
  "dataArrives d clock e = foldl (\<lambda>s h. handleResponse h d (clock h) s) e (listeners e)"

text \<open>The clock of an event at which every handler reads the same time.\<close>

definition sameReading :: "real \<Rightarrow> nat \<Rightarrow> real" where
  "sameReading t h = t"

text \<open>The timer of handler \<open>h\<close> fires, lines 86-88: \<^verbatim>\<open>connection.off('data', handleResponse)\<close>.\<close>

definition timeoutFires :: "nat \<Rightarrow> SyncEngine \<Rightarrow> SyncEngine" where
  "timeoutFires h e =
     (if h \<in> set (timeouts e)
      then e\<lparr>timeouts := removeAll h (timeouts e), listeners := removeAll h (listeners e)\<rparr>
      else e)"

text \<open>
  The interval timer fires, lines 32-34. \<^verbatim>\<open>clearInterval\<close> in \<^const>\<open>stopSync\<close> is the only
  way it stops, and \<^verbatim>\<open>startSync\<close> stops the previous run first, so the timer is alive
  exactly while \<open>intervalId\<close> is set.
\<close>

definition intervalFires :: "real \<Rightarrow> SyncEngine \<Rightarrow> SyncEngine" where
  "intervalFires now e = (if intervalId e \<noteq> None then performSync now e else e)"

text \<open>The events of one engine on one connection, and a run from the fresh engine.\<close>

datatype SyncEvent =
    StartSync real
  | StopSync
  | IntervalFires real
  | TimeoutFires nat
  | DataArrives ChannelData "nat \<Rightarrow> real"

fun syncStep :: "SyncEngine \<Rightarrow> SyncEvent \<Rightarrow> SyncEngine" where
  "syncStep e (StartSync now) = startSync now e"
| "syncStep e StopSync = stopSync e"
| "syncStep e (IntervalFires now) = intervalFires now e"
| "syncStep e (TimeoutFires h) = timeoutFires h e"
| "syncStep e (DataArrives d clock) = dataArrives d clock e"

definition syncRun :: "SyncEvent list \<Rightarrow> SyncEngine" where
  "syncRun events = foldl syncStep newSyncEngine events"


subsection \<open>audio-engine.ts: the player and schedulePlay\<close>

text \<open>
  The calls the engine makes on Tone.js: on the Transport (\<^verbatim>\<open>clear(id)\<close>, \<^verbatim>\<open>cancel()\<close>,
  \<^verbatim>\<open>stop()\<close>) and on the player (\<^verbatim>\<open>seek(position)\<close>, \<^verbatim>\<open>start(time, offset)\<close>,
  \<^verbatim>\<open>stop()\<close>, \<^verbatim>\<open>dispose()\<close>).
\<close>

datatype ToneCall =
    TransportClear nat
  | TransportCancel
  | TransportStop
  | PlayerSeek real
  | PlayerStart real real
  | PlayerStop
  | PlayerDispose

text \<open>
  The fields of \<^verbatim>\<open>AudioEngine\<close>. Of the player only its presence matters, of the buffer only
  its \<^verbatim>\<open>duration\<close> (seconds). \<open>calls\<close> is the log of the calls made on Tone.js, in order.
\<close>

record AudioEngine =
  player :: "unit option"
  buffer :: "real option"
  scheduledEventId :: "nat option"
  isReady :: bool
  calls :: "ToneCall list"

text \<open>\<^verbatim>\<open>cancelScheduled()\<close>, lines 160-165.\<close>

definition cancelScheduled :: "AudioEngine \<Rightarrow> AudioEngine" where
  "cancelScheduled a =
     (case scheduledEventId a of
        Some i \<Rightarrow> a\<lparr>calls := calls a @ [TransportClear i], scheduledEventId := None\<rparr>
      | None \<Rightarrow> a)"

text \<open>\<^verbatim>\<open>getDuration()\<close>, lines 146-148: \<^verbatim>\<open>this.buffer?.duration || 0\<close>.\<close>

definition getDuration :: "AudioEngine \<Rightarrow> real" where
  "getDuration a = (case buffer a of None \<Rightarrow> 0 | Some duration \<Rightarrow> duration)"

text \<open>
  \<^verbatim>\<open>schedulePlay(scheduledTime, seekPosition, clockOffset)\<close>, lines 69-104. \<open>seek\<close> and
  \<open>offset\<close> are the source's \<^verbatim>\<open>seekPosition\<close> and \<^verbatim>\<open>clockOffset\<close>; \<open>now\<close> is the reading of
  \<^verbatim>\<open>performance.now()\<close> (milliseconds) and \<open>toneNow\<close> that of \<^verbatim>\<open>Tone.now()\<close> (seconds).
\<close>

definition schedulePlay :: "real \<Rightarrow> real \<Rightarrow> real \<Rightarrow> real \<Rightarrow> real \<Rightarrow> AudioEngine \<Rightarrow> AudioEngine" where
  "schedulePlay scheduledTime seek offset now toneNow a =
     (if player a = None \<or> \<not> isReady a then a
      else
        (let localTime = scheduledTime - offset;
             delay = max 0 ((localTime - now) / 1000);
             a1 = cancelScheduled a;
             a2 = a1\<lparr>calls := calls a1 @ [TransportCancel, TransportStop, PlayerSeek seek]\<rparr>
         in if delay > 0
            then a2\<lparr>calls := calls a2 @ [PlayerStart (toneNow + delay) seek]\<rparr>
            else
              (let lateBy = - delay;
                   adjustedSeek = seek + lateBy
               in if adjustedSeek < (case buffer a of None \<Rightarrow> 0 | Some duration \<Rightarrow> duration)
                  then a2\<lparr>calls := calls a2 @ [PlayerStart toneNow adjustedSeek]\<rparr>
                  else a2)))"

text \<open>An engine right after a payload of the given duration was loaded: player present, ready.\<close>

definition loadedEngine :: "real \<Rightarrow> AudioEngine" where
  "loadedEngine duration =
     \<lparr>player = Some (), buffer = Some duration, scheduledEventId = None, isReady = True, calls = []\<rparr>"


subsection \<open>audio-engine.ts: Base64 and chunking\<close>

text \<open>
  An \<^verbatim>\<open>ArrayBuffer\<close> or \<^verbatim>\<open>Uint8Array\<close> is the list of its bytes. A string that holds
  Base64 text is a \<^typ>\<open>string\<close>; a "binary string" (the argument of \<^verbatim>\<open>btoa\<close>, the result
  of \<^verbatim>\<open>atob\<close>) is the list of its code units, as numbers.
\<close>

type_synonym byte = "8 word"

text \<open>
  What is thrown: the \<^verbatim>\<open>InvalidCharacterError\<close> of \<^verbatim>\<open>btoa\<close> and \<^verbatim>\<open>atob\<close>, or
  \<^verbatim>\<open>new Error(message)\<close>.
\<close>

datatype JsError = InvalidCharacterError | Error string

text \<open>\<^verbatim>\<open>CHUNK_SIZE = 16 * 1024\<close>, protocol.ts line 134.\<close>

definition CHUNK_SIZE :: nat where
  "CHUNK_SIZE = 16 * 1024"

text \<open>
  \<^verbatim>\<open>btoa\<close> and \<^verbatim>\<open>atob\<close> are functions of the platform, not of the repository. They are
  modelled after the HTML Standard: \<^verbatim>\<open>btoa\<close> throws on a code unit above 255 and otherwise
  encodes with the alphabet of RFC 4648 and \<open>=\<close> padding; \<^verbatim>\<open>atob\<close> is the forgiving
  decoder: it removes ASCII whitespace, removes one or two trailing \<open>=\<close> when the length is a
  multiple of 4, fails when the remaining length is 1 modulo 4 or a character is outside
  the alphabet, and drops the bits of an incomplete last group.
\<close>

definition base64_alphabet :: string where
  "base64_alphabet = ''ABCDEFGHIJKLMNOPQRSTUVWXYZabcdefghijklmnopqrstuvwxyz0123456789+/''"

definition sextet_char :: "nat \<Rightarrow> char" where
  "sextet_char n = base64_alphabet ! n"

definition char_sextet :: "char \<Rightarrow> nat option" where
  "char_sextet c = map_of (zip base64_alphabet [0..<64]) c"

text \<open>Three code units (24 bits) make four groups of six bits; a shorter rest is filled with zero bits.\<close>

fun sextets_of :: "nat list \<Rightarrow> nat list" where
  "sextets_of (a # b # c # rest) =
     [a div 4, (a mod 4) * 16 + b div 16, (b mod 16) * 4 + c div 64, c mod 64] @ sextets_of rest"
| "sextets_of [a, b] = [a div 4, (a mod 4) * 16 + b div 16, (b mod 16) * 4]"
| "sextets_of [a] = [a div 4, (a mod 4) * 16]"
| "sextets_of [] = []"

definition btoa :: "nat list \<Rightarrow> JsError + string" where
  "btoa binary =
     (if list_ex (\<lambda>u. u > 255) binary then Inl InvalidCharacterError
      else Inr (map sextet_char (sextets_of binary) @
                replicate ((3 - length binary mod 3) mod 3) (CHR ''='')))"

definition is_ascii_whitespace :: "char \<Rightarrow> bool" where
  "is_ascii_whitespace c = (c \<in> set [CHR 0x09, CHR 0x0A, CHR 0x0C, CHR 0x0D, CHR 0x20])"

definition strip_padding :: "string \<Rightarrow> string" where
  "strip_padding d =
     (if length d mod 4 = 0 then
        (case rev d of
           x # y # r \<Rightarrow>
             if x = CHR ''='' \<and> y = CHR ''='' then rev r
             else if x = CHR ''='' then rev (y # r)
             else d
         | _ \<Rightarrow> d)
      else d)"

text \<open>Four groups of six bits make three code units; of a rest of two or three groups the surplus bits are dropped.\<close>

fun octets_of :: "nat list \<Rightarrow> nat list" where
  "octets_of (p # q # r # s # rest) =
     [p * 4 + q div 16, (q mod 16) * 16 + r div 4, (r mod 4) * 64 + s] @ octets_of rest"
| "octets_of [p, q, r] = [p * 4 + q div 16, (q mod 16) * 16 + r div 4]"
| "octets_of [p, q] = [p * 4 + q div 16]"
| "octets_of _ = []"

definition atob :: "string \<Rightarrow> JsError + nat list" where
  "atob data =
     (let d1 = filter (\<lambda>c. \<not> is_ascii_whitespace c) data;
          d2 = strip_padding d1
      in if length d2 mod 4 = 1 then Inl InvalidCharacterError
         else
           (case those (map char_sextet d2) of
              None \<Rightarrow> Inl InvalidCharacterError
            | Some sextets \<Rightarrow> Inr (octets_of sextets)))"

text \<open>
  \<^verbatim>\<open>arrayBufferToBase64(buffer)\<close>, lines 233-240: \<^verbatim>\<open>String.fromCharCode(bytes[i])\<close> is the
  code unit with the value of the byte.
\<close>

definition arrayBufferToBase64 :: "byte list \<Rightarrow> JsError + string" where
  "arrayBufferToBase64 bytes = btoa (map unat bytes)"

text \<open>
  \<^verbatim>\<open>base64ToArrayBuffer(base64)\<close>, lines 245-257: whatever \<^verbatim>\<open>atob\<close> throws is replaced by
  \<^verbatim>\<open>Error('Invalid Base64 audio data')\<close>; storing a code unit into a \<^verbatim>\<open>Uint8Array\<close> keeps
  its low 8 bits.
\<close>

definition base64ToArrayBuffer :: "string \<Rightarrow> JsError + byte list" where
  "base64ToArrayBuffer base64 =
     (case atob base64 of
        Inl err \<Rightarrow> Inl (Error ''Invalid Base64 audio data'')
      | Inr binary \<Rightarrow> Inr (map of_nat binary))"

text \<open>
  The \<^verbatim>\<open>while\<close> loop of \<^verbatim>\<open>chunkArrayBuffer\<close>, lines 191-198, with its variables \<open>offset\<close>
  and \<open>chunks\<close>. It ends because \<open>chunkSize\<close> is positive while \<open>offset\<close> is below the length.
\<close>

function chunkLoop :: "byte list \<Rightarrow> nat \<Rightarrow> string list \<Rightarrow> JsError + string list" where
  "chunkLoop bytes offset chunks =
     (if offset < length bytes then
        (let chunkSize = min CHUNK_SIZE (length bytes - offset);
             chunkBuffer = slice_array bytes offset (offset + chunkSize)
         in case arrayBufferToBase64 chunkBuffer of
              Inl err \<Rightarrow> Inl err
            | Inr base64 \<Rightarrow> chunkLoop bytes (offset + chunkSize) (chunks @ [base64]))
      else Inr chunks)"
  by pat_completeness auto
termination
  by (relation "measure (\<lambda>(bytes, offset, chunks). length bytes - offset)")
    (auto simp add: CHUNK_SIZE_def)

text \<open>\<^verbatim>\<open>chunkArrayBuffer(buffer)\<close>, lines 187-201.\<close>

definition chunkArrayBuffer :: "byte list \<Rightarrow> JsError + string list" where
  "chunkArrayBuffer bytes = chunkLoop bytes 0 []"

text \<open>\<^verbatim>\<open>Array.prototype.map\<close> with a callback that may throw: the first exception ends it.\<close>

fun mapThrowing :: "('a \<Rightarrow> JsError + 'b) \<Rightarrow> 'a list \<Rightarrow> JsError + 'b list" where
  "mapThrowing f [] = Inr []"
| "mapThrowing f (x # xs) =
     (case f x of
        Inl err \<Rightarrow> Inl err
      | Inr y \<Rightarrow> (case mapThrowing f xs of Inl err \<Rightarrow> Inl err | Inr ys \<Rightarrow> Inr (y # ys)))"

text \<open>
  \<^verbatim>\<open>result.set(chunk, offset)\<close> for a chunk that fits into \<open>result\<close> at \<open>offset\<close> (the only
  case that arises: \<open>result\<close> has the total size of the chunks), and the \<^verbatim>\<open>for\<close> loop of
  lines 222-225 with its variable \<open>offset\<close>.
\<close>

definition typedArraySet :: "byte list \<Rightarrow> byte list \<Rightarrow> nat \<Rightarrow> byte list" where
  "typedArraySet result chunk offset =
     take offset result @ chunk @ drop (offset + length chunk) result"

fun writeChunks :: "byte list \<Rightarrow> nat \<Rightarrow> byte list list \<Rightarrow> byte list" where
  "writeChunks result offset [] = result"
| "writeChunks result offset (chunk # rest) =
     writeChunks (typedArraySet result chunk offset) (offset + length chunk) rest"

text \<open>
  \<^verbatim>\<open>reassembleChunks(chunks)\<close>, lines 206-228. An element of the array is a string or is
  missing (a hole of a sparse array, or \<^verbatim>\<open>undefined\<close>): \<open>None\<close>. \<^verbatim>\<open>filter\<close> keeps the
  strings that are not empty; \<^verbatim>\<open>new Uint8Array(totalSize)\<close> is filled with zeros.
\<close>

definition reassembleChunks :: "string option list \<Rightarrow> JsError + byte list" where
  "reassembleChunks chunks =
     (let validChunks =
            concat (map (\<lambda>chunk. case chunk of
                                    Some s \<Rightarrow> if length s > 0 then [s] else []
                                  | None \<Rightarrow> []) chunks)
      in if length validChunks = 0 then Inl (Error ''No valid audio chunks received'')
         else
           (case mapThrowing base64ToArrayBuffer validChunks of
              Inl err \<Rightarrow> Inl err
            | Inr buffers \<Rightarrow>
                (let totalSize = foldl (\<lambda>sum buf. sum + length buf) 0 buffers;
                     result = replicate totalSize 0
                 in Inr (writeChunks result 0 buffers))))"

text \<open>The text \<^const>\<open>arrayBufferToBase64\<close> returns, as a function of the bytes (used in the proofs).\<close>

definition base64_text :: "byte list \<Rightarrow> string" where
  "base64_text bytes =
     map sextet_char (sextets_of (map unat bytes)) @
     replicate ((3 - length bytes mod 3) mod 3) (CHR ''='')"


subsection \<open>protocol.ts and store.ts: messages and the store\<close>

text \<open>
  The fields of \<^verbatim>\<open>AudioMeta\<close> (\<^verbatim>\<open>name\<close>, \<^verbatim>\<open>size\<close>, \<^verbatim>\<open>duration\<close>, \<^verbatim>\<open>mimeType\<close>,
  \<^verbatim>\<open>totalChunks\<close>) and of the \<^verbatim>\<open>PlaybackState\<close> message; the first three carry a prefix,
  their names being taken.
\<close>

record AudioMeta =
  metaName :: string
  metaSize :: nat
  metaDuration :: real
  mimeType :: string
  totalChunks :: nat

record PlaybackStateMsg =
  isPlaying :: bool
  seekPosition :: real
  startTime :: real

text \<open>
  The messages whose handling is modelled, with their fields in the order of protocol.ts.
  The data of a chunk is what \<^const>\<open>chunkArrayBuffer\<close> produced at the sender: a Base64
  string. \<^verbatim>\<open>SYNC_REQUEST\<close>, \<^verbatim>\<open>PEER_INFO\<close> and \<^verbatim>\<open>HEARTBEAT\<close>, which go to the sync
  responder and to the peer table, are not part of this model.
\<close>

datatype ProtocolMessage =
    SYNC_RESPONSE real real real
  | AUDIO_META AudioMeta
  | AUDIO_CHUNK nat nat string
  | AUDIO_COMPLETE
  | SCHEDULE_PLAY real real
  | SCHEDULE_PAUSE
  | SCHEDULE_STOP
  | SCHEDULE_SEEK real real
  | REQUEST_MASTER "string option"
  | GRANT_MASTER string
  | REVOKE_MASTER
  | PLAYBACK_STATE PlaybackStateMsg

text \<open>\<^verbatim>\<open>SCHEDULE_BUFFER = 300\<close>, protocol.ts line 140.\<close>

definition SCHEDULE_BUFFER :: real where
  "SCHEDULE_BUFFER = 300"

text \<open>store.ts: the type \<^verbatim>\<open>PlaybackState\<close> and the fields of the store that the handlers use.\<close>

datatype PlaybackState = Stopped | Playing | Paused | Loading

record AudioFile =
  fileName :: string
  fileSize :: nat
  fileDuration :: real
  fileBuffer :: "byte list"

record MeshBeatState =
  peerId :: "string option"
  audioFile :: "AudioFile option"
  playbackState :: PlaybackState
  isMaster :: bool
  storeClockOffset :: real

text \<open>\<^verbatim>\<open>initialState\<close>, store.ts lines 70-83.\<close>

definition initialState :: MeshBeatState where
  "initialState =
     \<lparr>peerId = None, audioFile = None, playbackState = Stopped, isMaster = False,
      storeClockOffset = 0\<rparr>"

subsection \<open>audio-engine.ts: loading, pause and stop\<close>

text \<open>A fresh \<^verbatim>\<open>AudioEngine\<close>, lines 10-13.\<close>

definition newAudioEngine :: AudioEngine where
  "newAudioEngine =
     \<lparr>player = None, buffer = None, scheduledEventId = None, isReady = False, calls = []\<rparr>"

text \<open>
  \<^verbatim>\<open>loadFromArrayBuffer\<close>, lines 27-52, after \<^verbatim>\<open>decodeAudioData\<close> has resolved with a
  buffer of the given duration: lines 34-47.
\<close>

definition loadDecoded :: "real \<Rightarrow> AudioEngine \<Rightarrow> AudioEngine" where
  "loadDecoded decodedDuration a =
     (let a1 = a\<lparr>buffer := Some decodedDuration\<rparr>;
          a2 = (if player a1 \<noteq> None then a1\<lparr>calls := calls a1 @ [PlayerDispose]\<rparr> else a1)
      in a2\<lparr>player := Some (), isReady := True\<rparr>)"

text \<open>\<^verbatim>\<open>pause()\<close>, lines 109-114, and \<^verbatim>\<open>stop()\<close>, lines 119-125.\<close>

definition pause :: "AudioEngine \<Rightarrow> AudioEngine" where
  "pause a = (if player a \<noteq> None then a\<lparr>calls := calls a @ [PlayerStop]\<rparr> else a)"

definition stop :: "AudioEngine \<Rightarrow> AudioEngine" where
  "stop a =
     (let a1 = cancelScheduled a
      in if player a1 \<noteq> None then a1\<lparr>calls := calls a1 @ [PlayerStop]\<rparr> else a1)"

subsection \<open>peer-manager.ts: the receiver and the master grant\<close>

text \<open>A \<^verbatim>\<open>DataConnection\<close> is known by the peer at its other end, \<^verbatim>\<open>conn.peer\<close>.\<close>

datatype DataConnection = DataConnection (peer: string)

text \<open>
  A call of \<^verbatim>\<open>processReceivedAudio\<close> that is suspended at
  \<^verbatim>\<open>await audioEngine.loadFromArrayBuffer(buffer, savedMeta.name)\<close>, with its local variables:
  \<^verbatim>\<open>peerId\<close>, \<^verbatim>\<open>savedMeta\<close>, \<^verbatim>\<open>buffer\<close>, and the clock offset of its \<^verbatim>\<open>store\<close> argument,
  which is the state object read by \<^verbatim>\<open>getState()\<close> when the message handler began.
\<close>

record PendingLoad =
  loadPeer :: string
  savedMeta :: AudioMeta
  loadBuffer :: "byte list"
  snapshotClockOffset :: real

text \<open>
  The fields of \<^verbatim>\<open>PeerManager\<close> that the modelled methods use, and what they act on:
  \<open>store\<close> is the current state of \<^verbatim>\<open>useMeshBeatStore\<close>, \<open>audio\<close> the \<^verbatim>\<open>audioEngine\<close>
  singleton, \<open>sent\<close> the log of \<^verbatim>\<open>conn.send(message)\<close> calls, \<open>loading\<close> the suspended
  calls of \<^verbatim>\<open>processReceivedAudio\<close> in the order they were suspended. An element of a chunk
  array is \<open>None\<close> where the JavaScript array has a hole.
\<close>

record PeerManager =
  connections :: "string \<rightharpoonup> DataConnection"
  audioChunks :: "string \<rightharpoonup> string option list"
  audioMeta :: "AudioMeta option"
  pendingPlaybackState :: "PlaybackStateMsg option"
  store :: MeshBeatState
  audio :: AudioEngine
  sent :: "(DataConnection \<times> ProtocolMessage) list"
  loading :: "PendingLoad list"

definition newPeerManager :: PeerManager where
  "newPeerManager =
     \<lparr>connections = Map.empty, audioChunks = Map.empty, audioMeta = None,
      pendingPlaybackState = None, store = initialState, audio = newAudioEngine,
      sent = [], loading = []\<rparr>"

text \<open>\<^verbatim>\<open>store.setPlaybackState(state)\<close> and \<^verbatim>\<open>store.setIsMaster(flag)\<close> on the current store.\<close>

definition setPlaybackState :: "PlaybackState \<Rightarrow> PeerManager \<Rightarrow> PeerManager" where
  "setPlaybackState s pm = pm\<lparr>store := (store pm)\<lparr>playbackState := s\<rparr>\<rparr>"

definition setIsMaster :: "bool \<Rightarrow> PeerManager \<Rightarrow> PeerManager" where
  "setIsMaster flag pm = pm\<lparr>store := (store pm)\<lparr>isMaster := flag\<rparr>\<rparr>"

text \<open>
  \<^verbatim>\<open>chunkArray[index] = data\<close> on a JavaScript array: an index at or beyond the length
  extends the array, leaving holes in between.
\<close>

definition arrayStore :: "'a option list \<Rightarrow> nat \<Rightarrow> 'a \<Rightarrow> 'a option list" where
  "arrayStore xs i v =
     (if i < length xs then xs[i := Some v]
      else xs @ replicate (i - length xs) None @ [Some v])"

text \<open>\<^verbatim>\<open>array.filter(c => c !== undefined).length\<close>.\<close>

definition countDefined :: "'a option list \<Rightarrow> nat" where
  "countDefined xs = length (filter (\<lambda>c. c \<noteq> None) xs)"

text \<open>The \<^verbatim>\<open>finally\<close> block of \<^verbatim>\<open>processReceivedAudio\<close>, lines 523-526.\<close>

definition discardSession :: "string \<Rightarrow> PeerManager \<Rightarrow> PeerManager" where
  "discardSession p pm = pm\<lparr>audioChunks := (audioChunks pm)(p := None), audioMeta := None\<rparr>"

text \<open>
  \<^verbatim>\<open>processReceivedAudio(peerId, store)\<close>, lines 479-527, from its call to its first
  \<^verbatim>\<open>await\<close>. \<open>snapshotOffset\<close> is \<^verbatim>\<open>store.clockOffset\<close> of the argument. When
  \<^const>\<open>reassembleChunks\<close> throws, the \<^verbatim>\<open>catch\<close> and \<^verbatim>\<open>finally\<close> blocks run at once; otherwise
  \<^verbatim>\<open>loadFromArrayBuffer\<close> starts decoding and the call is suspended with the session still
  open.
\<close>

definition processReceivedAudio :: "string \<Rightarrow> real \<Rightarrow> PeerManager \<Rightarrow> PeerManager" where
  "processReceivedAudio p snapshotOffset pm =
     (case (audioMeta pm, audioChunks pm p) of
        (Some meta, Some receivedChunks) \<Rightarrow>
          (case reassembleChunks receivedChunks of
             Inl err \<Rightarrow> discardSession p (setPlaybackState Stopped pm)
           | Inr bytes \<Rightarrow>
               pm\<lparr>loading := loading pm @
                    [\<lparr>loadPeer = p, savedMeta = meta, loadBuffer = bytes,
                      snapshotClockOffset = snapshotOffset\<rparr>]\<rparr>)
      | _ \<Rightarrow> pm)"

text \<open>
  The rest of a suspended \<^verbatim>\<open>processReceivedAudio\<close>, once \<^verbatim>\<open>loadFromArrayBuffer\<close> has
  settled: \<open>outcome\<close> is the duration of the decoded buffer, or \<open>None\<close> when decoding
  failed. Lines 495-519 on success, the \<^verbatim>\<open>catch\<close> block otherwise, then \<^verbatim>\<open>finally\<close>.
  \<open>now\<close> and \<open>toneNow\<close> are the clock readings of the continuation; the reading of
  \<^verbatim>\<open>performance.now()\<close> in the argument of \<^verbatim>\<open>schedulePlay\<close> and the one inside it, taken one
  right after the other, are one reading here.
\<close>

definition resumeProcessReceivedAudio ::
    "PendingLoad \<Rightarrow> real option \<Rightarrow> real \<Rightarrow> real \<Rightarrow> PeerManager \<Rightarrow> PeerManager" where
  "resumeProcessReceivedAudio call outcome now toneNow pm =
     discardSession (loadPeer call)
       (case outcome of
          None \<Rightarrow> setPlaybackState Stopped pm
        | Some decodedDuration \<Rightarrow>
            (let pm1 = pm\<lparr>audio := loadDecoded decodedDuration (audio pm)\<rparr>;
                 pm2 = pm1\<lparr>store := (store pm1)\<lparr>audioFile := Some
                         \<lparr>fileName = metaName (savedMeta call), fileSize = metaSize (savedMeta call),
                          fileDuration = metaDuration (savedMeta call),
                          fileBuffer = loadBuffer call\<rparr>\<rparr>\<rparr>;
                 pm3 = setPlaybackState Stopped pm2
             in case pendingPlaybackState pm3 of
                  None \<Rightarrow> pm3
                | Some pendingState \<Rightarrow>
                    (let pm4 = pm3\<lparr>pendingPlaybackState := None\<rparr>
                     in if isPlaying pendingState
                        then setPlaybackState Playing
                               (pm4\<lparr>audio := schedulePlay (now + SCHEDULE_BUFFER)
                                       (seekPosition pendingState) (snapshotClockOffset call)
                                       now toneNow (audio pm4)\<rparr>)
                        else pm4)))"

text \<open>
  \<^verbatim>\<open>handleMessage(conn, message)\<close>, lines 330-474, from its call to its first \<^verbatim>\<open>await\<close>.
  \<open>now\<close> and \<open>toneNow\<close> are the readings of \<^verbatim>\<open>performance.now()\<close> and \<^verbatim>\<open>Tone.now()\<close>. The
  argument \<^verbatim>\<open>store\<close> of the source is the state at the start of the handler, which is
  \<open>store pm\<close> wherever the handler reads it.
\<close>

fun handleMessage :: "DataConnection \<Rightarrow> ProtocolMessage \<Rightarrow> real \<Rightarrow> real \<Rightarrow> PeerManager \<Rightarrow> PeerManager" where
  "handleMessage conn (AUDIO_META metaMsg) now toneNow pm =
     setPlaybackState Loading
       (pm\<lparr>audioMeta := Some metaMsg, audioChunks := (audioChunks pm)(peer conn \<mapsto> [])\<rparr>)"
| "handleMessage conn (AUDIO_CHUNK chunkIndex chunkCount chunkData) now toneNow pm =
     (case (audioChunks pm (peer conn), audioMeta pm) of
        (Some chunkArray, Some meta) \<Rightarrow>
          (let stored = arrayStore chunkArray chunkIndex chunkData;
               pm1 = pm\<lparr>audioChunks := (audioChunks pm)(peer conn \<mapsto> stored)\<rparr>;
               receivedCount = countDefined stored
           in if receivedCount = totalChunks meta
              then processReceivedAudio (peer conn) (storeClockOffset (store pm)) pm1
              else pm1)
      | _ \<Rightarrow> pm)"
| "handleMessage conn AUDIO_COMPLETE now toneNow pm =
     (case audioChunks pm (peer conn) of
        None \<Rightarrow> pm
      | Some completeChunks \<Rightarrow>
          if audioMeta pm = None then pm
          else
            (let totalReceived = countDefined completeChunks
             in if totalReceived > 0
                then processReceivedAudio (peer conn) (storeClockOffset (store pm)) pm
                else setPlaybackState Stopped pm))"
| "handleMessage conn (SCHEDULE_PLAY start seek) now toneNow pm =
     (if \<not> isReady (audio pm)
      then pm\<lparr>pendingPlaybackState :=
                Some \<lparr>isPlaying = True, seekPosition = seek, startTime = start\<rparr>\<rparr>
      else setPlaybackState Playing
             (pm\<lparr>audio := schedulePlay start seek (storeClockOffset (store pm)) now toneNow
                     (audio pm)\<rparr>))"
| "handleMessage conn SCHEDULE_PAUSE now toneNow pm =
     setPlaybackState Paused (pm\<lparr>audio := pause (audio pm)\<rparr>)"
| "handleMessage conn SCHEDULE_STOP now toneNow pm =
     setPlaybackState Stopped (pm\<lparr>audio := stop (audio pm)\<rparr>)"
| "handleMessage conn (REQUEST_MASTER requester) now toneNow pm = pm"
| "handleMessage conn (GRANT_MASTER granted) now toneNow pm =
     (if Some granted = peerId (store pm) then setIsMaster True pm else pm)"
| "handleMessage conn REVOKE_MASTER now toneNow pm = setIsMaster False pm"
| "handleMessage conn (PLAYBACK_STATE stateMsg) now toneNow pm =
     (if \<not> isReady (audio pm) then pm\<lparr>pendingPlaybackState := Some stateMsg\<rparr>
      else if isPlaying stateMsg
      then setPlaybackState Playing
             (pm\<lparr>audio := schedulePlay (startTime stateMsg) (seekPosition stateMsg)
                     (storeClockOffset (store pm)) now toneNow (audio pm)\<rparr>)
      else setPlaybackState Stopped pm)"
| "handleMessage conn (SYNC_RESPONSE t1 t2 t3) now toneNow pm = pm"
| "handleMessage conn (SCHEDULE_SEEK position start) now toneNow pm = pm"

text \<open>
  What happens to a peer manager, one event at a time: a message arrives on a connection,
  or the load awaited by the suspended call number \<open>k\<close> settles and that call runs to its
  end.
\<close>

datatype PeerEvent =
    Message DataConnection ProtocolMessage real real
  | LoadSettled nat "real option" real real

fun peerStep :: "PeerManager \<Rightarrow> PeerEvent \<Rightarrow> PeerManager" where
  "peerStep pm (Message conn message now toneNow) = handleMessage conn message now toneNow pm"
| "peerStep pm (LoadSettled k outcome now toneNow) =
     (if k < length (loading pm)
      then resumeProcessReceivedAudio (loading pm ! k) outcome now toneNow
             (pm\<lparr>loading := take k (loading pm) @ drop (Suc k) (loading pm)\<rparr>)
      else pm)"

definition peerRun :: "PeerEvent list \<Rightarrow> PeerManager" where
  "peerRun events = foldl peerStep newPeerManager events"

text \<open>\<^verbatim>\<open>grantMaster(peerId)\<close>, lines 660-671.\<close>

definition grantMaster :: "string \<Rightarrow> PeerManager \<Rightarrow> PeerManager" where
  "grantMaster p pm =
     (case connections pm p of
        Some conn \<Rightarrow> setIsMaster False (pm\<lparr>sent := sent pm @ [(conn, GRANT_MASTER p)]\<rparr>)
      | None \<Rightarrow> pm)"

text \<open>
  Two states for examples: a host that is master and has one open connection, to the guest
  \<open>guest-1\<close>; and the metadata of a transfer of one chunk.
\<close>

definition hostWithGuest :: PeerManager where
  "hostWithGuest =
     newPeerManager
       \<lparr>connections := [''guest-1'' \<mapsto> DataConnection ''guest-1''],
        store := initialState\<lparr>peerId := Some ''host-1'', isMaster := True\<rparr>\<rparr>"

definition oneChunkMeta :: AudioMeta where
  "oneChunkMeta =
     \<lparr>metaName = ''a.mp3'', metaSize = 1, metaDuration = 2, mimeType = ''audio/mpeg'',
      totalChunks = 1\<rparr>"


section \<open>Properties\<close>

subsection \<open>The offset computation\<close>

lemma calculateOffset_unsanitized:
  assumes "\<bar>((t2 - t1) + (t3 - t4)) / 2\<bar> \<le> 10000" and "0 \<le> (t4 - t1) - (t3 - t2)"
  shows "calculateOffset t1 t2 t3 t4 =
    \<lparr>roundTripTime = (t4 - t1) - (t3 - t2), clockOffset = ((t2 - t1) + (t3 - t4)) / 2\<rparr>"
  using assms by (simp add: calculateOffset_def Let_def)

text \<open>
  C1. For timestamps \<open>t1 \<le> t2 \<le> t3 \<le> t4\<close> whose span \<open>t4 - t1\<close> is at most 20000 ms,
  neither sanity threshold triggers and \<^const>\<open>calculateOffset\<close> returns exactly the closed
  forms \<open>roundTripTime = (t4 - t1) - (t3 - t2)\<close> and
  \<open>clockOffset = ((t2 - t1) + (t3 - t4)) / 2\<close>.
\<close>

theorem calculateOffset_closed_form:
  assumes "t1 \<le> t2" and "t2 \<le> t3" and "t3 \<le> t4" and "t4 - t1 \<le> 20000"
  shows "calculateOffset t1 t2 t3 t4 =
    \<lparr>roundTripTime = (t4 - t1) - (t3 - t2), clockOffset = ((t2 - t1) + (t3 - t4)) / 2\<rparr>"
proof (rule calculateOffset_unsanitized)
  have "- (t4 - t1) \<le> (t2 - t1) + (t3 - t4)" and "(t2 - t1) + (t3 - t4) \<le> t4 - t1"
    using assms by linarith+
  with assms(4) show "\<bar>((t2 - t1) + (t3 - t4)) / 2\<bar> \<le> 10000"
    by (simp add: abs_le_iff)
  show "0 \<le> (t4 - t1) - (t3 - t2)"
    using assms by linarith
qed

theorem calculateOffset_closed_form_witness:
  "(0::real) \<le> 30 \<and> (30::real) \<le> 40 \<and> (40::real) \<le> 100 \<and> (100::real) - 0 \<le> 20000 \<and>
   calculateOffset 0 30 40 100 = \<lparr>roundTripTime = 90, clockOffset = -15\<rparr>"
  using calculateOffset_closed_form [of 0 30 40 100] by simp

text \<open>
  The bound on the span is the largest one: a span of 20001 ms with \<open>t1 < t2 = t3 = t4\<close> has a
  raw offset of 10000.5 ms, which is replaced by \<open>0\<close>.
\<close>

lemma calculateOffset_span_bound_tight:
  "calculateOffset 0 20001 20001 20001 = \<lparr>roundTripTime = 20001, clockOffset = 0\<rparr>"
  by (simp add: calculateOffset_def Let_def)

text \<open>
  C5. For every input of the offset computation: when the raw offset
  \<open>((t2 - t1) + (t3 - t4)) / 2\<close> exceeds 10000 ms in absolute value, the returned sample has
  offset \<open>0\<close> and still carries its round trip time, and it is the sample that
  \<^const>\<open>addSample\<close> puts at the end of the buffer (it is not discarded); when the raw round
  trip time \<open>(t4 - t1) - (t3 - t2)\<close> is negative, the returned sample carries its absolute
  value.
\<close>

theorem calculateOffset_sanity_policy:
  "(\<bar>((t2 - t1) + (t3 - t4)) / 2\<bar> > 10000 \<longrightarrow>
      clockOffset (calculateOffset t1 t2 t3 t4) = 0 \<and>
      roundTripTime (calculateOffset t1 t2 t3 t4) = \<bar>(t4 - t1) - (t3 - t2)\<bar> \<and>
      last (addSample (calculateOffset t1 t2 t3 t4) ring) =
        \<lparr>roundTripTime = \<bar>(t4 - t1) - (t3 - t2)\<bar>, clockOffset = 0\<rparr>) \<and>
   ((t4 - t1) - (t3 - t2) < 0 \<longrightarrow>
      roundTripTime (calculateOffset t1 t2 t3 t4) = \<bar>(t4 - t1) - (t3 - t2)\<bar> \<and>
      roundTripTime (calculateOffset t1 t2 t3 t4) = - ((t4 - t1) - (t3 - t2)))"
proof -
  have last_add: "last (addSample r ring) = r" for r
  proof (cases ring)
    case Nil
    then show ?thesis by (simp add: addSample_def maxSamples_def)
  next
    case (Cons s rest)
    then show ?thesis by (simp add: addSample_def Let_def)
  qed
  show ?thesis
    unfolding last_add by (simp add: calculateOffset_def Let_def)
qed

theorem calculateOffset_sanity_policy_witness:
  "\<bar>(((30000::real) - 0) + (30010 - 5)) / 2\<bar> > 10000 \<and> ((5::real) - 0) - (30010 - 30000) < 0 \<and>
   clockOffset (calculateOffset 0 30000 30010 5) = 0 \<and>
   roundTripTime (calculateOffset 0 30000 30010 5) = 5 \<and>
   last (addSample (calculateOffset 0 30000 30010 5) []) = \<lparr>roundTripTime = 5, clockOffset = 0\<rparr>"
  using calculateOffset_sanity_policy [of 30000 0 30010 5 "[]"]
  by simp

text \<open>
  C8. The probe \<open>t1 = 1000, t2 = 1050, t3 = 1060, t4 = 1120\<close> does not yield
  \<open>roundTripTime = 50, clockOffset = 15\<close>.
\<close>

theorem probe_scenario_counterexample:
  "calculateOffset 1000 1050 1060 1120 \<noteq> \<lparr>roundTripTime = 50, clockOffset = 15\<rparr>"
  by (simp add: calculateOffset_def Let_def)

text \<open>
  C8, amended. The probe \<open>t1 = 1000, t2 = 1050, t3 = 1060, t4 = 1120\<close> yields
  \<open>roundTripTime = (1120 - 1000) - (1060 - 1050) = 110\<close> and
  \<open>clockOffset = ((1050 - 1000) + (1060 - 1120)) / 2 = -5\<close>.
\<close>

theorem probe_scenario:
  "calculateOffset 1000 1050 1060 1120 = \<lparr>roundTripTime = 110, clockOffset = -5\<rparr>"
  by (simp add: calculateOffset_def Let_def)

subsection \<open>The sample ring\<close>

lemma addSample_no_evict: "length ring < 10 \<Longrightarrow> addSample r ring = ring @ [r]"
  by (simp add: addSample_def maxSamples_def Let_def)

lemma addSample_evict: "length ring = 10 \<Longrightarrow> addSample r ring = tl ring @ [r]"
  by (cases ring) (simp_all add: addSample_def maxSamples_def Let_def)

lemma addSample_length: "length ring \<le> 10 \<Longrightarrow> length (addSample r ring) \<le> 10"
  by (simp add: addSample_def maxSamples_def Let_def)

lemma addSample_all_window:
  "length ring \<le> 10 \<Longrightarrow>
   foldl (\<lambda>s r. addSample r s) ring rs = drop (length ring + length rs - 10) (ring @ rs)"
proof (induction rs rule: rev_induct)
  case Nil
  then show ?case by simp
next
  case (snoc r rs)
  let ?k = "length ring + length rs - 10"
  let ?w = "drop ?k (ring @ rs)"
  have step: "foldl (\<lambda>s r. addSample r s) ring (rs @ [r]) = addSample r ?w"
    using snoc by simp
  show ?case
  proof (cases "length ring + length rs < 10")
    case True
    then have "length ?w < 10" by simp
    then have "addSample r ?w = ?w @ [r]" by (rule addSample_no_evict)
    with True step show ?thesis by simp
  next
    case False
    then have len: "length ?w = 10" by simp
    then have "addSample r ?w = tl ?w @ [r]" by (rule addSample_evict)
    also have "tl ?w = drop (Suc ?k) (ring @ rs)"
      by (simp only: drop_Suc tl_drop)
    also have "drop (Suc ?k) (ring @ rs) @ [r] = drop (Suc ?k) (ring @ rs @ [r])"
      using False by simp
    also have "Suc ?k = length ring + length (rs @ [r]) - 10"
      using False by simp
    finally show ?thesis using step by simp
  qed
qed

text \<open>
  C4. Whatever samples are added, a ring of at most 10 entries stays at most 10 entries long;
  starting from the empty ring it holds exactly the last 10 samples added, in the order they
  were added; and adding a sample to a full ring of 10 removes the oldest entry and keeps
  the other 9 in their order, followed by the new one.
\<close>

theorem addSample_ring:
  "(length ring \<le> 10 \<longrightarrow> length (foldl (\<lambda>s r. addSample r s) ring rs) \<le> 10) \<and>
   foldl (\<lambda>s r. addSample r s) [] rs = drop (length rs - 10) rs \<and>
   (length ring = 10 \<longrightarrow> addSample r ring = tl ring @ [r])"
proof (intro conjI impI)
  assume "length ring \<le> 10"
  then show "length (foldl (\<lambda>s r. addSample r s) ring rs) \<le> 10"
    by (simp add: addSample_all_window)
next
  show "foldl (\<lambda>s r. addSample r s) [] rs = drop (length rs - 10) rs"
    using addSample_all_window [of "[]" rs] by simp
next
  assume "length ring = 10"
  then show "addSample r ring = tl ring @ [r]" by (rule addSample_evict)
qed

theorem addSample_ring_witness:
  "length (map (\<lambda>n. \<lparr>roundTripTime = n, clockOffset = 0\<rparr>) [0, 1, 2, 3, 4, 5, 6, 7, 8, 9]) = 10 \<and>
   length (foldl (\<lambda>s r. addSample r s)
     (map (\<lambda>n. \<lparr>roundTripTime = n, clockOffset = 0\<rparr>) [0, 1, 2, 3, 4, 5, 6, 7, 8, 9])
     (map (\<lambda>n. \<lparr>roundTripTime = n, clockOffset = 0\<rparr>) [10, 11])) \<le> 10 \<and>
   addSample \<lparr>roundTripTime = 10, clockOffset = 0\<rparr>
     (map (\<lambda>n. \<lparr>roundTripTime = n, clockOffset = 0\<rparr>) [0, 1, 2, 3, 4, 5, 6, 7, 8, 9]) =
     map (\<lambda>n. \<lparr>roundTripTime = n, clockOffset = 0\<rparr>) [1, 2, 3, 4, 5, 6, 7, 8, 9, 10]"
proof -
  let ?ring = "map (\<lambda>n. \<lparr>roundTripTime = n, clockOffset = 0\<rparr>) [0, 1, 2, 3, 4, 5, 6, 7, 8, 9]"
  let ?rs = "map (\<lambda>n. \<lparr>roundTripTime = n, clockOffset = 0\<rparr>) [10, 11]"
  let ?r = "\<lparr>roundTripTime = 10, clockOffset = 0\<rparr>"
  have ten: "length ?ring = 10" and le: "length ?ring \<le> 10"
    by simp_all
  from addSample_ring [of ?ring ?rs ?r] ten le
  have bound: "length (foldl (\<lambda>s r. addSample r s) ?ring ?rs) \<le> 10"
    and evict: "addSample ?r ?ring = tl ?ring @ [?r]"
    by blast+
  have "tl ?ring @ [?r] = map (\<lambda>n. \<lparr>roundTripTime = n, clockOffset = 0\<rparr>) [1, 2, 3, 4, 5, 6, 7, 8, 9, 10]"
    by simp
  with ten bound evict show ?thesis
    by (simp only:)
qed

subsection \<open>The trimmed mean\<close>

lemma foldl_plus_sum_list: "foldl (\<lambda>sum s. sum + f s) a xs = a + sum_list (map f xs)" for a :: real
  by (induction xs arbitrary: a) simp_all

lemma trimmed_ten:
  assumes "length s = 10"
  shows "slice_array s 2 (or_else (length s - 2) (length s)) = take 6 (drop 2 s)"
  using assms by (simp add: slice_array_def or_else_def)

lemma getAverageResult_ten:
  assumes "length ring = 10"
  shows "getAverageResult ring =
    \<lparr>roundTripTime = sum_list (map roundTripTime (take 6 (drop 2 (sort_key roundTripTime ring)))) / 6,
     clockOffset = sum_list (map clockOffset (take 6 (drop 2 (sort_key roundTripTime ring)))) / 6\<rparr>"
proof -
  let ?s = "sort_key roundTripTime ring"
  have len: "length ?s = 10" using assms by simp
  have tr: "slice_array ?s 2 (or_else (length ?s - 2) (length ?s)) = take 6 (drop 2 ?s)"
    using len by (rule trimmed_ten)
  have l6: "length (take 6 (drop 2 ?s)) = 6" using len by simp
  have "getAverageResult ring = averageTrimmed ring ?s 2"
    using assms by (simp add: getAverageResult_def Let_def)
  also have "\<dots> =
    \<lparr>roundTripTime = sum_list (map roundTripTime (take 6 (drop 2 ?s))) / 6,
     clockOffset = sum_list (map clockOffset (take 6 (drop 2 ?s))) / 6\<rparr>"
    by (simp only: averageTrimmed_def Let_def tr l6 foldl_plus_sum_list) simp
  finally show ?thesis .
qed

lemma trimmed_nonempty:
  assumes "ring \<noteq> []"
  shows "slice_array (sort_key roundTripTime ring) (length ring div 5)
     (or_else (length ring - length ring div 5) (length ring)) \<noteq> []"
proof -
  let ?n = "length ring" and ?k = "length ring div 5"
  from assms have pos: "0 < ?n" by simp
  have lt: "?k < ?n - ?k"
    using pos by linarith
  then have oe: "or_else (?n - ?k) ?n = ?n - ?k"
    by (simp add: or_else_def)
  have "length (slice_array (sort_key roundTripTime ring) ?k (?n - ?k)) = ?n - ?k - ?k"
    by (simp add: slice_array_def)
  with lt oe show ?thesis
    by (metis length_0_conv zero_less_diff less_numeral_extra(3))
qed

text \<open>
  C3. With exactly 10 buffered samples, \<^const>\<open>getAverageResult\<close> sorts them by round trip
  time (a permutation of the buffer in ascending order), leaves out the first 2 and the last 2
  of the sorted samples, and returns the mean round trip time and the mean offset of the
  6 in between, each computed on its own. With no sample it returns \<open>{0, 0}\<close>. Where the
  trimmed slice is empty, the aggregate is the most recent sample.
\<close>

theorem getAverageResult_trimmed_mean:
  "(length ring = 10 \<longrightarrow>
      (let s = sort_key roundTripTime ring; lo = take 2 s; kept = take 6 (drop 2 s); hi = drop 8 s
       in s = lo @ kept @ hi \<and> length lo = 2 \<and> length kept = 6 \<and> length hi = 2 \<and>
          mset s = mset ring \<and> sorted (map roundTripTime s) \<and>
          getAverageResult ring =
            \<lparr>roundTripTime = sum_list (map roundTripTime kept) / 6,
             clockOffset = sum_list (map clockOffset kept) / 6\<rparr>)) \<and>
   getAverageResult [] = \<lparr>roundTripTime = 0, clockOffset = 0\<rparr> \<and>
   (slice_array sortedSamples trimCount
        (or_else (length sortedSamples - trimCount) (length sortedSamples)) = [] \<longrightarrow>
      averageTrimmed ring sortedSamples trimCount = last ring)"
proof (intro conjI impI)
  assume ten: "length ring = 10"
  let ?s = "sort_key roundTripTime ring"
  have len: "length ?s = 10" using ten by simp
  have split: "?s = take 2 ?s @ take 6 (drop 2 ?s) @ drop 8 ?s"
  proof -
    have "take 6 (drop 2 ?s) @ drop 6 (drop 2 ?s) = drop 2 ?s"
      by (rule append_take_drop_id)
    moreover have "drop 6 (drop 2 ?s) = drop 8 ?s"
      by (simp add: drop_drop)
    moreover have "take 2 ?s @ drop 2 ?s = ?s"
      by (rule append_take_drop_id)
    ultimately show ?thesis by metis
  qed
  show "let s = ?s; lo = take 2 s; kept = take 6 (drop 2 s); hi = drop 8 s
       in s = lo @ kept @ hi \<and> length lo = 2 \<and> length kept = 6 \<and> length hi = 2 \<and>
          mset s = mset ring \<and> sorted (map roundTripTime s) \<and>
          getAverageResult ring =
            \<lparr>roundTripTime = sum_list (map roundTripTime kept) / 6,
             clockOffset = sum_list (map clockOffset kept) / 6\<rparr>"
    unfolding Let_def
    using split len getAverageResult_ten [OF ten] by simp
next
  show "getAverageResult [] = \<lparr>roundTripTime = 0, clockOffset = 0\<rparr>"
    by (simp add: getAverageResult_def)
next
  assume "slice_array sortedSamples trimCount
      (or_else (length sortedSamples - trimCount) (length sortedSamples)) = []"
  then show "averageTrimmed ring sortedSamples trimCount = last ring"
    by (simp add: averageTrimmed_def)
qed


theorem getAverageResult_trimmed_mean_witness:
  "length (map (\<lambda>(r, c). \<lparr>roundTripTime = r, clockOffset = c\<rparr>)
      [(50, 5), (10, 1), (90, 9), (30, -3), (70, 7), (20, 2), (100, 10), (40, 4), (80, 8), (60, -6)]) = 10 \<and>
   getAverageResult (map (\<lambda>(r, c). \<lparr>roundTripTime = r, clockOffset = c\<rparr>)
      [(50, 5), (10, 1), (90, 9), (30, -3), (70, 7), (20, 2), (100, 10), (40, 4), (80, 8), (60, -6)]) =
     \<lparr>roundTripTime = 55, clockOffset = 5 / 2\<rparr> \<and>
   slice_array (map (\<lambda>(r, c). \<lparr>roundTripTime = r, clockOffset = c\<rparr>) [(1, 0), (2, 0), (3, 0), (4, 0), (5, 0)])
     3 (or_else 2 5) = [] \<and>
   averageTrimmed
     (map (\<lambda>(r, c). \<lparr>roundTripTime = r, clockOffset = c\<rparr>)
       [(50, 5), (10, 1), (90, 9), (30, -3), (70, 7), (20, 2), (100, 10), (40, 4), (80, 8), (60, -6)])
     (map (\<lambda>(r, c). \<lparr>roundTripTime = r, clockOffset = c\<rparr>) [(1, 0), (2, 0), (3, 0), (4, 0), (5, 0)]) 3 =
     \<lparr>roundTripTime = 60, clockOffset = -6\<rparr>"
  using getAverageResult_trimmed_mean [of
      "map (\<lambda>(r, c). \<lparr>roundTripTime = r, clockOffset = c\<rparr>)
        [(50, 5), (10, 1), (90, 9), (30, -3), (70, 7), (20, 2), (100, 10), (40, 4), (80, 8), (60, -6)]"
      "map (\<lambda>(r, c). \<lparr>roundTripTime = r, clockOffset = c\<rparr>) [(1, 0), (2, 0), (3, 0), (4, 0), (5, 0)]"
      3]
  by (simp add: slice_array_def or_else_def)

subsection \<open>Stopping continuous sync\<close>

lemma getAverageResult_single: "getAverageResult [r] = r"
  by (simp add: getAverageResult_def averageTrimmed_def slice_array_def or_else_def Let_def)

lemma addSample_empty: "addSample r [] = [r]"
  by (simp add: addSample_def maxSamples_def Let_def)










text \<open>
  A response is not tied to its probe. The probe of \<open>t1 = 1000\<close> times out, the interval
  issues the next probe at 2000, then \<^const>\<open>stopSync\<close> is called; the late response to the
  first probe arrives at 2100 and is taken by the handler of the second.
\<close>

lemma late_response_taken_by_next_probe:
  "listeners (syncRun [StartSync 1000, TimeoutFires 0, IntervalFires 2000, StopSync]) = [2] \<and>
   samples (syncRun [StartSync 1000, TimeoutFires 0, IntervalFires 2000, StopSync,
       DataArrives (SyncResponseData 1000 1050 1060) (sameReading 2100)]) =
     [\<lparr>roundTripTime = 1090, clockOffset = -495\<rparr>] \<and>
   completions (syncRun [StartSync 1000, TimeoutFires 0, IntervalFires 2000, StopSync,
       DataArrives (SyncResponseData 1000 1050 1060) (sameReading 2100)]) =
     [\<lparr>roundTripTime = 1090, clockOffset = -495\<rparr>]"
  by (simp add: syncRun_def newSyncEngine_def startSync_def stopSync_def performSync_def
      timeoutFires_def intervalFires_def
      dataArrives_def handleResponse_def Let_def addSample_empty getAverageResult_single
      calculateOffset_def sameReading_def)

subsection \<open>Scheduling playback\<close>

text \<open>
  With the deadline \<open>scheduledTime - offset\<close> still ahead of \<open>now\<close>, the player is started at
  the seek position after a delay that is positive.
\<close>

lemma schedulePlay_future:
  assumes "player a \<noteq> None" and "isReady a" and "now < scheduledTime - offset"
  shows "calls (schedulePlay scheduledTime seek offset now toneNow a) =
           calls (cancelScheduled a) @ [TransportCancel, TransportStop, PlayerSeek seek,
             PlayerStart (toneNow + (scheduledTime - offset - now) / 1000) seek]"
    and "0 < (scheduledTime - offset - now) / 1000"
  using assms by (simp_all add: schedulePlay_def Let_def max_def)

text \<open>
  With the deadline reached or passed, \<^verbatim>\<open>delay\<close> is \<open>max 0\<close> of a number that is not
  positive, so it is \<open>0\<close>, \<^verbatim>\<open>lateBy = -delay\<close> is \<open>0\<close> and \<^verbatim>\<open>adjustedSeek\<close> is the seek
  position itself, however late the call is.
\<close>

lemma schedulePlay_late:
  assumes "player a \<noteq> None" and "isReady a" and "scheduledTime - offset \<le> now"
  shows "calls (schedulePlay scheduledTime seek offset now toneNow a) =
           calls (cancelScheduled a) @ [TransportCancel, TransportStop, PlayerSeek seek] @
             (if seek < getDuration a then [PlayerStart toneNow seek] else [])"
  using assms by (simp add: schedulePlay_def getDuration_def Let_def max_def)

text \<open>
  C7, at the failing input. A payload of 100 s is loaded; \<^verbatim>\<open>schedulePlay(3000, 10, 0)\<close> is
  called when \<^verbatim>\<open>performance.now()\<close> reads 5000, so the deadline has passed by 2000 ms: the
  player is started at position 10, not at \<open>10 + 2000/1000 = 12\<close>. With seek position 99,
  where \<open>99 + 2 = 101\<close> lies beyond the duration, the player is started all the same, at 99.
\<close>

theorem schedulePlay_late_start_keeps_seek:
  "calls (schedulePlay 3000 10 0 5000 7 (loadedEngine 100)) =
     [TransportCancel, TransportStop, PlayerSeek 10, PlayerStart 7 10] \<and>
   calls (schedulePlay 3000 99 0 5000 7 (loadedEngine 100)) =
     [TransportCancel, TransportStop, PlayerSeek 99, PlayerStart 7 99]"
  by (simp add: schedulePlay_def loadedEngine_def cancelScheduled_def Let_def)


subsection \<open>Base64\<close>

lemma base64_alphabet_length: "length base64_alphabet = 64"
  by (simp add: base64_alphabet_def)

lemma base64_alphabet_distinct: "distinct base64_alphabet"
  by (simp add: base64_alphabet_def)

lemma base64_alphabet_plain:
  assumes "c \<in> set base64_alphabet"
  shows "c \<noteq> CHR ''=''" and "\<not> is_ascii_whitespace c"
  using assms by (auto simp add: base64_alphabet_def is_ascii_whitespace_def)

lemma sextet_char_in_alphabet: "s < 64 \<Longrightarrow> sextet_char s \<in> set base64_alphabet"
  by (simp add: sextet_char_def base64_alphabet_length)

lemma char_sextet_sextet_char: "s < 64 \<Longrightarrow> char_sextet (sextet_char s) = Some s"
  unfolding char_sextet_def sextet_char_def
  using map_of_zip_nth [of base64_alphabet "[0..<64]" s]
  by (simp add: base64_alphabet_length base64_alphabet_distinct)

lemma those_char_sextet:
  "list_all (\<lambda>s. s < 64) ss \<Longrightarrow> those (map char_sextet (map sextet_char ss)) = Some ss"
  by (induction ss) (simp_all add: char_sextet_sextet_char)

lemma sextets_of_bound:
  "list_all (\<lambda>u. u < 256) binary \<Longrightarrow> list_all (\<lambda>s. s < 64) (sextets_of binary)"
  by (induction binary rule: sextets_of.induct) auto

lemma unpack_div: "q < k \<Longrightarrow> (m * k + q) div k = m" for m q k :: nat
  by simp

lemma unpack_mod: "q < k \<Longrightarrow> (m * k + q) mod k = q" for m q k :: nat
  by simp

lemma octet_high_nibble: "b < 256 \<Longrightarrow> b div 16 < 16" for b :: nat
  by arith

lemma octet_high_pair: "c < 256 \<Longrightarrow> c div 64 < 4" for c :: nat
  by arith

lemma octets_of_sextets_of:
  "list_all (\<lambda>u. u < 256) binary \<Longrightarrow> octets_of (sextets_of binary) = binary"
proof (induction binary rule: sextets_of.induct)
  case (1 a b c rest)
  then have b: "b div 16 < 16" and c: "c div 64 < 4" and ih: "octets_of (sextets_of rest) = rest"
    by (simp_all add: octet_high_nibble octet_high_pair)
  have "a div 4 * 4 + (a mod 4 * 16 + b div 16) div 16 = a"
    by (simp only: unpack_div [OF b] div_mult_mod_eq)
  moreover have "(a mod 4 * 16 + b div 16) mod 16 * 16 + (b mod 16 * 4 + c div 64) div 4 = b"
    by (simp only: unpack_mod [OF b] unpack_div [OF c] div_mult_mod_eq)
  moreover have "(b mod 16 * 4 + c div 64) mod 4 * 64 + c mod 64 = c"
    by (simp only: unpack_mod [OF c] div_mult_mod_eq)
  ultimately show ?case using ih by (simp del: mult_Suc_right)
next
  case (2 a b)
  then have b: "b div 16 < 16" by (simp add: octet_high_nibble)
  have "a div 4 * 4 + (a mod 4 * 16 + b div 16) div 16 = a"
    by (simp only: unpack_div [OF b] div_mult_mod_eq)
  moreover have "(a mod 4 * 16 + b div 16) mod 16 * 16 + (b mod 16 * 4) div 4 = b"
    by (simp only: unpack_mod [OF b] nonzero_mult_div_cancel_right div_mult_mod_eq)
  ultimately show ?case by simp
next
  case (3 a)
  have "a div 4 * 4 + a mod 4 * 16 div 16 = a" by simp
  then show ?case by simp
next
  case 4
  then show ?case by simp
qed

lemma length_sextets_of:
  "length (sextets_of binary) =
     4 * (length binary div 3) + (if length binary mod 3 = 0 then 0 else length binary mod 3 + 1)"
  by (induction binary rule: sextets_of.induct) simp_all


lemma strip_padding_two:
  "(length m + 2) mod 4 = 0 \<Longrightarrow> strip_padding (m @ ''=='') = m"
  by (simp add: strip_padding_def)

lemma strip_padding_one:
  assumes "(length m + 1) mod 4 = 0" and "m \<noteq> []" and "last m \<noteq> CHR ''=''"
  shows "strip_padding (m @ ''='') = m"
proof -
  from assms(2) obtain front y where m: "m = front @ [y]"
    by (cases m rule: rev_cases) simp_all
  with assms(3) have "y \<noteq> CHR ''=''" by simp
  with assms(1) m show ?thesis
    by (simp add: strip_padding_def)
qed

lemma strip_padding_none:
  assumes "m = [] \<or> last m \<noteq> CHR ''=''"
  shows "strip_padding m = m"
proof (cases m rule: rev_cases)
  case Nil
  then show ?thesis by (simp add: strip_padding_def)
next
  case (snoc front y)
  with assms have "y \<noteq> CHR ''=''" by simp
  with snoc show ?thesis
    by (simp add: strip_padding_def split: list.split)
qed

lemma last_sextet_char_plain:
  assumes "list_all (\<lambda>s. s < 64) ss" and "ss \<noteq> []"
  shows "last (map sextet_char ss) \<noteq> CHR ''=''"
proof -
  from assms have "last ss < 64"
    by (metis last_in_set list_all_iff)
  then have "sextet_char (last ss) \<in> set base64_alphabet"
    by (rule sextet_char_in_alphabet)
  then have "sextet_char (last ss) \<noteq> CHR ''=''"
    by (rule base64_alphabet_plain)
  with assms(2) show ?thesis by (simp add: last_map)
qed

lemma filter_whitespace_encoded:
  assumes "list_all (\<lambda>s. s < 64) ss"
  shows "filter (\<lambda>c. \<not> is_ascii_whitespace c) (map sextet_char ss @ replicate n (CHR ''='')) =
         map sextet_char ss @ replicate n (CHR ''='')"
proof -
  have "\<not> is_ascii_whitespace (CHR ''='')"
    by (simp add: is_ascii_whitespace_def)
  moreover have "\<not> is_ascii_whitespace (sextet_char s)" if "s \<in> set ss" for s
  proof -
    from assms that have "s < 64" by (simp add: list_all_iff)
    then show ?thesis
      by (intro base64_alphabet_plain sextet_char_in_alphabet)
  qed
  ultimately show ?thesis
    by (simp add: filter_id_conv)
qed

lemma strip_padding_encoded:
  assumes "list_all (\<lambda>u. u < 256) binary"
  shows "strip_padding (map sextet_char (sextets_of binary) @
           replicate ((3 - length binary mod 3) mod 3) (CHR ''='')) =
         map sextet_char (sextets_of binary)"
proof -
  let ?ss = "sextets_of binary" and ?n = "length binary"
  have bound: "list_all (\<lambda>s. s < 64) ?ss"
    using assms by (rule sextets_of_bound)
  have len: "length ?ss = 4 * (?n div 3) + (if ?n mod 3 = 0 then 0 else ?n mod 3 + 1)"
    by (rule length_sextets_of)
  consider "?n mod 3 = 0" | "?n mod 3 = 1" | "?n mod 3 = 2"
    by linarith
  then show ?thesis
  proof cases
    case 1
    have "?ss = [] \<or> last (map sextet_char ?ss) \<noteq> CHR ''=''"
      using last_sextet_char_plain [OF bound] by blast
    then have "strip_padding (map sextet_char ?ss) = map sextet_char ?ss"
      by (intro strip_padding_none) simp
    with 1 show ?thesis by simp
  next
    case 2
    with len have "(length (map sextet_char ?ss) + 2) mod 4 = 0" by simp
    then have "strip_padding (map sextet_char ?ss @ ''=='') = map sextet_char ?ss"
      by (rule strip_padding_two)
    moreover from 2 have "replicate ((3 - ?n mod 3) mod 3) (CHR ''='') = ''==''"
      by (simp add: numeral_2_eq_2)
    ultimately show ?thesis by simp
  next
    case 3
    with len have l: "length ?ss = 4 * (?n div 3) + 3" by simp
    then have ne: "?ss \<noteq> []" by auto
    from l have "(length (map sextet_char ?ss) + 1) mod 4 = 0" by simp
    moreover from ne have "map sextet_char ?ss \<noteq> []" by simp
    moreover have "last (map sextet_char ?ss) \<noteq> CHR ''=''"
      using bound ne by (rule last_sextet_char_plain)
    ultimately have "strip_padding (map sextet_char ?ss @ ''='') = map sextet_char ?ss"
      by (rule strip_padding_one)
    moreover from 3 have "replicate ((3 - ?n mod 3) mod 3) (CHR ''='') = ''=''"
      by simp
    ultimately show ?thesis by simp
  qed
qed

lemma atob_encoded:
  assumes "list_all (\<lambda>u. u < 256) binary"
  shows "atob (map sextet_char (sextets_of binary) @
           replicate ((3 - length binary mod 3) mod 3) (CHR ''='')) = Inr binary"
proof -
  let ?ss = "sextets_of binary"
  have bound: "list_all (\<lambda>s. s < 64) ?ss"
    using assms by (rule sextets_of_bound)
  have "length (map sextet_char ?ss) mod 4 \<noteq> 1"
    by (simp add: length_sextets_of)
  then show ?thesis
    unfolding atob_def Let_def
    by (simp only: filter_whitespace_encoded [OF bound] strip_padding_encoded [OF assms]
        those_char_sextet [OF bound])
      (simp add: octets_of_sextets_of [OF assms])
qed

lemma unat_bytes_bound: "list_all (\<lambda>u. u < 256) (map unat bytes)" for bytes :: "byte list"
proof -
  have "unat b < 256" for b :: byte
    using unsigned_less [of b, where 'a = nat] by simp
  then show ?thesis by (simp add: list_all_iff)
qed

lemma arrayBufferToBase64_text: "arrayBufferToBase64 bytes = Inr (base64_text bytes)"
proof -
  have "\<not> list_ex (\<lambda>u. u > 255) (map unat bytes)"
    using unat_bytes_bound [of bytes] by (auto simp add: list_ex_iff list_all_iff)
  then show ?thesis
    by (simp add: arrayBufferToBase64_def btoa_def base64_text_def)
qed

lemma base64ToArrayBuffer_text: "base64ToArrayBuffer (base64_text bytes) = Inr bytes"
proof -
  have "atob (base64_text bytes) = Inr (map unat bytes)"
    using atob_encoded [OF unat_bytes_bound, of bytes] by (simp add: base64_text_def)
  then show ?thesis
    by (simp add: base64ToArrayBuffer_def comp_def)
qed

lemma base64_text_nonempty: "bytes \<noteq> [] \<Longrightarrow> base64_text bytes \<noteq> []"
  by (cases "map unat bytes" rule: sextets_of.cases) (auto simp add: base64_text_def)


subsection \<open>Chunking and reassembly\<close>

lemma div_add_self: "0 < c \<Longrightarrow> (a + c) div c = Suc (a div c)" for a c :: nat
  by simp

lemma ceil_div_step:
  "0 < c \<Longrightarrow> c \<le> x \<Longrightarrow> (x + (c - 1)) div c = Suc ((x - c + (c - 1)) div c)" for c x :: nat
proof -
  assume "0 < c" and "c \<le> x"
  then have "x + (c - 1) = (x - c + (c - 1)) + c" by simp
  then have "(x + (c - 1)) div c = ((x - c + (c - 1)) + c) div c" by (simp only:)
  also have "\<dots> = Suc ((x - c + (c - 1)) div c)"
    using \<open>0 < c\<close> by (rule div_add_self)
  finally show ?thesis .
qed

lemma ceil_div_last:
  "0 < x \<Longrightarrow> x \<le> c \<Longrightarrow> (x + (c - 1)) div c = 1" for c x :: nat
proof -
  assume "0 < x" and "x \<le> c"
  then have "x + (c - 1) = (x - 1) + c" and "x - 1 < c" and "0 < c" by simp_all
  then have "(x + (c - 1)) div c = ((x - 1) + c) div c" by (simp only:)
  also have "\<dots> = Suc ((x - 1) div c)"
    using \<open>0 < c\<close> by (rule div_add_self)
  also have "(x - 1) div c = 0"
    using \<open>x - 1 < c\<close> by simp
  finally show ?thesis by simp
qed

lemma chunkLoop_result:
  "offset \<le> length bytes \<Longrightarrow>
   \<exists>cs. chunkLoop bytes offset chunks = Inr (chunks @ map base64_text cs) \<and>
        concat cs = drop offset bytes \<and>
        list_all (\<lambda>c. c \<noteq> [] \<and> length c \<le> CHUNK_SIZE) cs \<and>
        length cs = (length bytes - offset + (CHUNK_SIZE - 1)) div CHUNK_SIZE"
proof (induction bytes offset chunks rule: chunkLoop.induct)
  case (1 bytes offset chunks)
  show ?case
  proof (cases "offset < length bytes")
    case False
    with 1(2) have "offset = length bytes" by simp
    then have "chunkLoop bytes offset chunks = Inr (chunks @ map base64_text [])"
      by (subst chunkLoop.simps) simp
    moreover have "(length bytes - offset + (CHUNK_SIZE - 1)) div CHUNK_SIZE = 0"
      using \<open>offset = length bytes\<close> by (simp add: CHUNK_SIZE_def)
    ultimately show ?thesis
      using \<open>offset = length bytes\<close> by (intro exI [of _ "[]"]) simp
  next
    case True
    let ?k = "min CHUNK_SIZE (length bytes - offset)"
    let ?cb = "slice_array bytes offset (offset + ?k)"
    have k_pos: "0 < ?k" and k_le: "offset + ?k \<le> length bytes"
      using True by (simp_all add: CHUNK_SIZE_def)
    have cb: "?cb = take ?k (drop offset bytes)"
      using k_le by (simp add: slice_array_def)
    have enc: "arrayBufferToBase64 ?cb = Inr (base64_text ?cb)"
      by (rule arrayBufferToBase64_text)
    from "1.IH" [OF True refl refl enc k_le]
    obtain cs where
      loop: "chunkLoop bytes (offset + ?k) (chunks @ [base64_text ?cb]) =
               Inr ((chunks @ [base64_text ?cb]) @ map base64_text cs)"
      and cat: "concat cs = drop (offset + ?k) bytes"
      and each: "list_all (\<lambda>c. c \<noteq> [] \<and> length c \<le> CHUNK_SIZE) cs"
      and count: "length cs = (length bytes - (offset + ?k) + (CHUNK_SIZE - 1)) div CHUNK_SIZE"
      by blast
    have "chunkLoop bytes offset chunks =
            chunkLoop bytes (offset + ?k) (chunks @ [base64_text ?cb])"
      using True enc by (subst chunkLoop.simps) (simp add: Let_def)
    with loop have r: "chunkLoop bytes offset chunks = Inr (chunks @ map base64_text (?cb # cs))"
      by simp
    have "concat (?cb # cs) = take ?k (drop offset bytes) @ drop ?k (drop offset bytes)"
      using cat cb by (simp add: add.commute)
    then have c: "concat (?cb # cs) = drop offset bytes"
      by (simp only: append_take_drop_id)
    have len_cb: "length ?cb = ?k"
      using k_le cb by simp
    have e: "list_all (\<lambda>c. c \<noteq> [] \<and> length c \<le> CHUNK_SIZE) (?cb # cs)"
    proof -
      have "?cb \<noteq> []" using len_cb k_pos by auto
      moreover have "length ?cb \<le> CHUNK_SIZE" using len_cb by simp
      ultimately show ?thesis using each by simp
    qed
    have n: "length (?cb # cs) = (length bytes - offset + (CHUNK_SIZE - 1)) div CHUNK_SIZE"
    proof -
      define x where "x = length bytes - offset"
      have x_pos: "0 < x" using True by (simp add: x_def)
      have rest: "length bytes - (offset + min CHUNK_SIZE x) = x - min CHUNK_SIZE x"
        by (simp add: x_def)
      from count have count': "length cs = (x - min CHUNK_SIZE x + (CHUNK_SIZE - 1)) div CHUNK_SIZE"
        unfolding x_def [symmetric] rest .
      have "Suc (length cs) = (x + (CHUNK_SIZE - 1)) div CHUNK_SIZE"
      proof (cases "CHUNK_SIZE \<le> x")
        case True
        then have "min CHUNK_SIZE x = CHUNK_SIZE" by simp
        with count' have "length cs = (x - CHUNK_SIZE + (CHUNK_SIZE - 1)) div CHUNK_SIZE"
          by simp
        with True show ?thesis
          using ceil_div_step [of CHUNK_SIZE x] by (simp add: CHUNK_SIZE_def)
      next
        case False
        then have "min CHUNK_SIZE x = x" by simp
        with count' have "length cs = 0"
          by (simp add: CHUNK_SIZE_def)
        with False x_pos show ?thesis
          using ceil_div_last [of x CHUNK_SIZE] by simp
      qed
      then show ?thesis by (simp add: x_def)
    qed
    from r c e n show ?thesis by blast
  qed
qed

lemma validChunks_encoded:
  "list_all (\<lambda>c. c \<noteq> []) cs \<Longrightarrow>
   concat (map (\<lambda>chunk. case chunk of Some s \<Rightarrow> if length s > 0 then [s] else [] | None \<Rightarrow> [])
     (map Some (map base64_text cs))) = map base64_text cs"
  by (induction cs) (simp_all add: base64_text_nonempty)

lemma mapThrowing_decode: "mapThrowing base64ToArrayBuffer (map base64_text cs) = Inr cs"
  by (induction cs) (simp_all add: base64ToArrayBuffer_text)

lemma totalSize_concat:
  "foldl (\<lambda>sum buf. sum + length buf) n buffers = n + length (concat buffers)"
  by (induction buffers arbitrary: n) simp_all

lemma writeChunks_concat:
  "length result = offset + length (concat buffers) \<Longrightarrow>
   writeChunks result offset buffers = take offset result @ concat buffers"
proof (induction buffers arbitrary: result offset)
  case Nil
  then show ?case by simp
next
  case (Cons chunk rest)
  let ?r = "typedArraySet result chunk offset"
  have shape: "?r = (take offset result @ chunk) @ drop (offset + length chunk) result"
    by (simp add: typedArraySet_def)
  have front: "length (take offset result @ chunk) = offset + length chunk"
    using Cons.prems by simp
  have "length ?r = (offset + length chunk) + length (concat rest)"
    using Cons.prems by (simp add: typedArraySet_def)
  then have "writeChunks ?r (offset + length chunk) rest =
      take (offset + length chunk) ?r @ concat rest"
    by (rule Cons.IH)
  also have "take (offset + length chunk) ?r = take offset result @ chunk"
    unfolding shape using front by (metis append_eq_conv_conj)
  finally show ?case by simp
qed

lemma reassembleChunks_encoded:
  assumes "cs \<noteq> []" and "list_all (\<lambda>c. c \<noteq> []) cs"
  shows "reassembleChunks (map Some (map base64_text cs)) = Inr (concat cs)"
proof -
  have "writeChunks (replicate (length (concat cs)) 0) 0 cs = concat cs"
    using writeChunks_concat [of "replicate (length (concat cs)) 0" 0 cs] by simp
  with assms(1) show ?thesis
    unfolding reassembleChunks_def Let_def
    by (simp only: validChunks_encoded [OF assms(2)] mapThrowing_decode totalSize_concat)
      simp
qed

text \<open>
  C2, amended. For every payload of \<open>N \<ge> 1\<close> bytes (so for \<open>N\<close> in 1, 16384, 16385, 100000),
  \<^const>\<open>chunkArrayBuffer\<close> returns \<open>\<lceil>N / 16384\<rceil>\<close> chunks and \<^const>\<open>reassembleChunks\<close> of
  that chunk list returns the payload, byte for byte. For the empty payload
  \<^const>\<open>chunkArrayBuffer\<close> returns no chunk and \<^const>\<open>reassembleChunks\<close> of the empty list
  throws \<^verbatim>\<open>Error('No valid audio chunks received')\<close>.
\<close>

theorem chunk_reassemble_round_trip:
  "(bytes \<noteq> [] \<longrightarrow>
      (\<exists>chunks. chunkArrayBuffer bytes = Inr chunks \<and>
         length chunks = (length bytes + (CHUNK_SIZE - 1)) div CHUNK_SIZE \<and>
         reassembleChunks (map Some chunks) = Inr bytes)) \<and>
   chunkArrayBuffer [] = Inr [] \<and>
   reassembleChunks (map Some []) = Inl (Error ''No valid audio chunks received'')"
proof (intro conjI impI)
  assume ne: "bytes \<noteq> []"
  from chunkLoop_result [of 0 bytes "[]"]
  obtain cs where loop: "chunkArrayBuffer bytes = Inr (map base64_text cs)"
    and cat: "concat cs = bytes"
    and each: "list_all (\<lambda>c. c \<noteq> [] \<and> length c \<le> CHUNK_SIZE) cs"
    and count: "length cs = (length bytes + (CHUNK_SIZE - 1)) div CHUNK_SIZE"
    by (auto simp add: chunkArrayBuffer_def)
  from cat ne have "cs \<noteq> []" by auto
  moreover from each have "list_all (\<lambda>c. c \<noteq> []) cs"
    by (simp add: list_all_iff)
  ultimately have "reassembleChunks (map Some (map base64_text cs)) = Inr (concat cs)"
    by (rule reassembleChunks_encoded)
  with cat have "reassembleChunks (map Some (map base64_text cs)) = Inr bytes"
    by (simp only:)
  with loop count
  show "\<exists>chunks. chunkArrayBuffer bytes = Inr chunks \<and>
         length chunks = (length bytes + (CHUNK_SIZE - 1)) div CHUNK_SIZE \<and>
         reassembleChunks (map Some chunks) = Inr bytes"
    by (intro exI [of _ "map base64_text cs"]) simp
next
  show "chunkArrayBuffer [] = Inr []"
    by (simp add: chunkArrayBuffer_def)
next
  show "reassembleChunks (map Some []) = Inl (Error ''No valid audio chunks received'')"
    by (simp add: reassembleChunks_def)
qed

theorem chunk_reassemble_round_trip_witness:
  "replicate 16385 (0 :: byte) \<noteq> [] \<and>
   (\<exists>chunks. chunkArrayBuffer (replicate 16385 0) = Inr chunks \<and> length chunks = 2 \<and>
      reassembleChunks (map Some chunks) = Inr (replicate 16385 0)) \<and>
   replicate 100000 (255 :: byte) \<noteq> [] \<and>
   (\<exists>chunks. chunkArrayBuffer (replicate 100000 255) = Inr chunks \<and> length chunks = 7 \<and>
      reassembleChunks (map Some chunks) = Inr (replicate 100000 255)) \<and>
   chunkArrayBuffer [1, 2, 3, 4] = Inr [''AQIDBA==''] \<and>
   reassembleChunks [Some ''AQIDBA==''] = Inr [1, 2, 3, 4]"
proof -
  have a: "replicate 16385 (0 :: byte) \<noteq> []" and b: "replicate 100000 (255 :: byte) \<noteq> []"
    by simp_all
  have c: "chunkArrayBuffer [1, 2, 3, 4] = Inr [''AQIDBA=='']"
    by code_simp
  from chunk_reassemble_round_trip [of "[1, 2, 3, 4]"] c
  have d: "reassembleChunks [Some ''AQIDBA==''] = Inr [1, 2, 3, 4]"
    by auto
  from chunk_reassemble_round_trip [of "replicate 16385 0"] a
  have e: "\<exists>chunks. chunkArrayBuffer (replicate 16385 0) = Inr chunks \<and> length chunks = 2 \<and>
      reassembleChunks (map Some chunks) = Inr (replicate 16385 0)"
    by (simp add: CHUNK_SIZE_def)
  from chunk_reassemble_round_trip [of "replicate 100000 255"] b
  have f: "\<exists>chunks. chunkArrayBuffer (replicate 100000 255) = Inr chunks \<and> length chunks = 7 \<and>
      reassembleChunks (map Some chunks) = Inr (replicate 100000 255)"
    by (simp add: CHUNK_SIZE_def)
  from a b c d e f show ?thesis by blast
qed

text \<open>
  C2. For \<open>N = 0\<close> chunking and reassembly do not return a copy of the (empty) payload:
  reassembly throws.
\<close>

theorem empty_payload_round_trip_counterexample:
  "chunkArrayBuffer [] = Inr [] \<and> reassembleChunks (map Some []) \<noteq> Inr []"
  by (simp add: chunkArrayBuffer_def reassembleChunks_def)


subsection \<open>The completion sentinel\<close>

text \<open>
  Where the session of the link is closed, \<^verbatim>\<open>AUDIO_COMPLETE\<close> changes nothing; and a suspended
  \<^verbatim>\<open>processReceivedAudio\<close> closes the session when it resumes. So a sentinel that arrives
  after the load of the threshold-triggered reassembly has settled is a duplicate without
  effect.
\<close>

lemma complete_after_session_closed:
  "audioChunks pm (peer conn) = None \<Longrightarrow> handleMessage conn AUDIO_COMPLETE now toneNow pm = pm"
  by simp

lemma resume_closes_session:
  "audioChunks (resumeProcessReceivedAudio call outcome now toneNow pm) (loadPeer call) = None \<and>
   audioMeta (resumeProcessReceivedAudio call outcome now toneNow pm) = None"
  by (simp add: resumeProcessReceivedAudio_def discardSession_def)

lemma complete_after_load_settled:
  "peerRun [Message (DataConnection ''host-1'') (AUDIO_META oneChunkMeta) 0 0,
            Message (DataConnection ''host-1'') (AUDIO_CHUNK 0 1 ''AQ=='') 0 0,
            LoadSettled 0 (Some 2) 0 0,
            Message (DataConnection ''host-1'') AUDIO_COMPLETE 0 0] =
   peerRun [Message (DataConnection ''host-1'') (AUDIO_META oneChunkMeta) 0 0,
            Message (DataConnection ''host-1'') (AUDIO_CHUNK 0 1 ''AQ=='') 0 0,
            LoadSettled 0 (Some 2) 0 0]"
proof -
  let ?pm = "peerRun [Message (DataConnection ''host-1'') (AUDIO_META oneChunkMeta) 0 0,
            Message (DataConnection ''host-1'') (AUDIO_CHUNK 0 1 ''AQ=='') 0 0]"
  have l: "map loadPeer (loading ?pm) = [''host-1'']"
    by code_simp
  then obtain call where c: "loading ?pm = [call]" and p: "loadPeer call = ''host-1''"
    by auto
  have "peerRun [Message (DataConnection ''host-1'') (AUDIO_META oneChunkMeta) 0 0,
            Message (DataConnection ''host-1'') (AUDIO_CHUNK 0 1 ''AQ=='') 0 0,
            LoadSettled 0 (Some 2) 0 0] =
        resumeProcessReceivedAudio call (Some 2) 0 0 (?pm\<lparr>loading := []\<rparr>)"
    using c by (simp add: peerRun_def)
  moreover have "audioChunks (resumeProcessReceivedAudio call (Some 2) 0 0 (?pm\<lparr>loading := []\<rparr>))
      (peer (DataConnection ''host-1'')) = None"
    using resume_closes_session [of call "Some 2" 0 0 "?pm\<lparr>loading := []\<rparr>"] p by simp
  ultimately show ?thesis
    by (simp add: peerRun_def)
qed

text \<open>
  C6, at the failing input. On the link to \<open>host-1\<close> the metadata of a transfer of one chunk
  arrives, then the chunk (the byte \<open>01\<close>, Base64 \<open>AQ==\<close>): the count reaches
  \<^verbatim>\<open>totalChunks\<close>, the payload is reassembled and handed to \<^verbatim>\<open>loadFromArrayBuffer\<close>, and
  \<^verbatim>\<open>processReceivedAudio\<close> waits for the decoder with the session still open. The sentinel
  arrives before the decoder is done: the payload is reassembled and handed to
  \<^verbatim>\<open>loadFromArrayBuffer\<close> a second time. When both loads have settled, the first one before a
  \<^verbatim>\<open>SCHEDULE_PLAY\<close> and the second one after it, the second has disposed of the player that
  was started and has set the playback state back to \<open>stopped\<close>.
\<close>

theorem complete_during_load_reassembles_again:
  "map loadBuffer (loading (peerRun
      [Message (DataConnection ''host-1'') (AUDIO_META oneChunkMeta) 0 0,
       Message (DataConnection ''host-1'') (AUDIO_CHUNK 0 1 ''AQ=='') 0 0])) = [[1]] \<and>
   map loadBuffer (loading (peerRun
      [Message (DataConnection ''host-1'') (AUDIO_META oneChunkMeta) 0 0,
       Message (DataConnection ''host-1'') (AUDIO_CHUNK 0 1 ''AQ=='') 0 0,
       Message (DataConnection ''host-1'') AUDIO_COMPLETE 0 0])) = [[1], [1]] \<and>
   playbackState (store (peerRun
      [Message (DataConnection ''host-1'') (AUDIO_META oneChunkMeta) 0 0,
       Message (DataConnection ''host-1'') (AUDIO_CHUNK 0 1 ''AQ=='') 0 0,
       Message (DataConnection ''host-1'') AUDIO_COMPLETE 0 0,
       LoadSettled 0 (Some 2) 100 0,
       Message (DataConnection ''host-1'') (SCHEDULE_PLAY 500 0) 200 1,
       LoadSettled 0 (Some 2) 300 2])) = Stopped \<and>
   calls (audio (peerRun
      [Message (DataConnection ''host-1'') (AUDIO_META oneChunkMeta) 0 0,
       Message (DataConnection ''host-1'') (AUDIO_CHUNK 0 1 ''AQ=='') 0 0,
       Message (DataConnection ''host-1'') AUDIO_COMPLETE 0 0,
       LoadSettled 0 (Some 2) 100 0,
       Message (DataConnection ''host-1'') (SCHEDULE_PLAY 500 0) 200 1,
       LoadSettled 0 (Some 2) 300 2])) =
     [TransportCancel, TransportStop, PlayerSeek 0, PlayerStart (13 / 10) 0, PlayerDispose]"
  by code_simp

subsection \<open>Granting master\<close>

text \<open>
  C10. Where the connection table has a connection for the peer, \<^const>\<open>grantMaster\<close> sends
  the grant message on it and sets the local master flag of the store to false, and changes
  nothing else. Where it has none, \<^const>\<open>grantMaster\<close> sends nothing and leaves the whole
  state, the master flag included, as it was.
\<close>

theorem grantMaster_relinquishes:
  "(connections pm p = Some conn \<longrightarrow>
      grantMaster p pm =
        pm\<lparr>sent := sent pm @ [(conn, GRANT_MASTER p)], store := (store pm)\<lparr>isMaster := False\<rparr>\<rparr> \<and>
      isMaster (store (grantMaster p pm)) = False) \<and>
   (connections pm p = None \<longrightarrow> grantMaster p pm = pm)"
  by (simp add: grantMaster_def setIsMaster_def)

theorem grantMaster_relinquishes_witness:
  "connections hostWithGuest ''guest-1'' = Some (DataConnection ''guest-1'') \<and>
   connections hostWithGuest ''guest-2'' = None \<and>
   isMaster (store hostWithGuest) = True \<and>
   sent (grantMaster ''guest-1'' hostWithGuest) =
     [(DataConnection ''guest-1'', GRANT_MASTER ''guest-1'')] \<and>
   isMaster (store (grantMaster ''guest-1'' hostWithGuest)) = False \<and>
   grantMaster ''guest-2'' hostWithGuest = hostWithGuest"
proof -
  have a: "connections hostWithGuest ''guest-1'' = Some (DataConnection ''guest-1'')"
    and b: "connections hostWithGuest ''guest-2'' = None"
    and c: "isMaster (store hostWithGuest) = True"
    and d: "sent hostWithGuest = []"
    by (simp_all add: hostWithGuest_def newPeerManager_def initialState_def)
  from grantMaster_relinquishes [of hostWithGuest "''guest-1''" "DataConnection ''guest-1''"] a
  have e: "grantMaster ''guest-1'' hostWithGuest =
      hostWithGuest\<lparr>sent := sent hostWithGuest @ [(DataConnection ''guest-1'', GRANT_MASTER ''guest-1'')],
        store := (store hostWithGuest)\<lparr>isMaster := False\<rparr>\<rparr>"
    by blast
  from grantMaster_relinquishes [of hostWithGuest "''guest-2''"] b
  have f: "grantMaster ''guest-2'' hostWithGuest = hostWithGuest"
    by blast
  from a b c f show ?thesis
    unfolding e by (simp add: d)
qed

end
